theory Spec2Isabelle
  imports Main
begin

section \<open>JavaScript values\<close>

text \<open>
  The module \<^verbatim>\<open>old_archiver/queue.mjs\<close> is untyped JavaScript. A value is one of the
  primitives or an object, an object being its list of properties. The distinction between
  a missing property (read as \<^verbatim>\<open>undefined\<close>) and a stored one is what the dedup
  predicates of the module turn on, so it is kept. Arrays are only used as the two
  module-level lists, the list of areas in a search response and the lists the
  collaborators return; those are HOL lists.
\<close>

datatype jsval =
    JUndefined
  | JNull
  | JBool bool
  | JNum int
  | JStr string
  | JObj "(string \<times> jsval) list"

text \<open>
  What a \<^verbatim>\<open>throw\<close> or a rejected promise carries: one of the built-in errors the
  language raises itself, or an arbitrary value (\<^verbatim>\<open>reject('Missing body')\<close>, an error
  of a collaborator).
\<close>

datatype exn = TypeError | ReferenceError | SyntaxError | Value jsval

text \<open>
  \<^verbatim>\<open>v.k\<close>: reading a property of \<^verbatim>\<open>undefined\<close> or \<^verbatim>\<open>null\<close> throws a
  TypeError; a property an object does not have reads as \<^verbatim>\<open>undefined\<close>. The module
  reads only the names name, id, key, subArea, parentId, areaData, areaId, areaKey,
  areaName, success and msg, none of which a boolean, number or string has.
\<close>

fun get_prop :: "jsval \<Rightarrow> string \<Rightarrow> exn + jsval" where
  "get_prop JUndefined k = Inl TypeError"
| "get_prop JNull k = Inl TypeError"
| "get_prop (JObj ps) k = (case map_of ps k of None \<Rightarrow> Inr JUndefined | Some v \<Rightarrow> Inr v)"
| "get_prop v k = Inr JUndefined"

text \<open>
  A second read of a value that an earlier read has shown not to be \<^verbatim>\<open>undefined\<close> or
  \<^verbatim>\<open>null\<close> cannot throw; \<open>prop_of\<close> is used for those reads only.
\<close>

definition prop_of :: "jsval \<Rightarrow> string \<Rightarrow> jsval" where
  "prop_of v k = (case get_prop v k of Inl e \<Rightarrow> JUndefined | Inr w \<Rightarrow> w)"

text \<open>The two values whose properties cannot be read.\<close>

fun nullish :: "jsval \<Rightarrow> bool" where
  "nullish JUndefined = True"
| "nullish JNull = True"
| "nullish v = False"

text \<open>The condition of an \<^verbatim>\<open>if\<close>.\<close>

fun truthy :: "jsval \<Rightarrow> bool" where
  "truthy JUndefined = False"
| "truthy JNull = False"
| "truthy (JBool b) = b"
| "truthy (JNum n) = (n \<noteq> 0)"
| "truthy (JStr s) = (s \<noteq> [])"
| "truthy (JObj ps) = True"

text \<open>
  \<^verbatim>\<open>a === b\<close>. Primitives are compared by value. An object is \<^verbatim>\<open>===\<close> only to
  itself; the right operand of both comparisons in the module is read out of the response
  that \<^verbatim>\<open>JSON.parse\<close> has just built, so it is never the object a stored property
  holds, and the comparison of two objects is false.
\<close>

fun strict_eq :: "jsval \<Rightarrow> jsval \<Rightarrow> bool" where
  "strict_eq (JObj ps) w = False"
| "strict_eq v (JObj qs) = False"
| "strict_eq v w = (v = w)"

section \<open>Module state and collaborators\<close>

text \<open>
  What the Outcome Recorder is handed: the reason of a failure record is either a message
  (\<^verbatim>\<open>status.msg\<close>) or a caught exception.
\<close>

datatype reason = Message jsval | Caught exn

text \<open>
  \<^verbatim>\<open>downloadQueue\<close> and \<^verbatim>\<open>failedAreas\<close> are the two module-level lists. The recorder
  (\<^verbatim>\<open>addArchiveLog\<close>, \<^verbatim>\<open>logFailedArchive\<close> of utils.mjs) is append-only; the two
  logs hold the argument tuples of the calls made so far, in order.
\<close>

record state =
  downloadQueue :: "jsval list"
  failedAreas :: "jsval list"
  archiveLog :: "(jsval \<times> jsval \<times> jsval \<times> jsval \<times> jsval) list"
  failedLog :: "(jsval \<times> jsval \<times> jsval \<times> reason) list"

definition initial :: state where
  "initial = \<lparr>downloadQueue = [], failedAreas = [], archiveLog = [], failedLog = []\<rparr>"

text \<open>
  The imported functions of utils.mjs and area.mjs, which the module calls and does not
  define. A call that throws (or whose promise rejects) is \<open>Inl\<close>.
  \<^verbatim>\<open>getAreaIdentifiers\<close> is always called with \<^verbatim>\<open>false\<close> as its second argument;
  \<^verbatim>\<open>getSubAreas\<close> answers with an array and \<^verbatim>\<open>isAreaArchived\<close> with a boolean.
  Within one operation a collaborator gives the same answer to the same arguments.
\<close>

record env =
  isAreaArchived :: "jsval \<Rightarrow> jsval \<Rightarrow> bool"
  getAreaIdentifiers :: "jsval \<Rightarrow> exn + jsval"
  getSubAreas :: "jsval \<Rightarrow> exn + jsval list"
  archiveArea :: "jsval \<Rightarrow> jsval \<Rightarrow> jsval \<Rightarrow> jsval \<Rightarrow> exn + jsval"

section \<open>appendDownloadQueue\<close>

definition appendDownloadQueue :: "jsval list \<Rightarrow> state \<Rightarrow> state" where
  "appendDownloadQueue items st = st\<lparr>downloadQueue := downloadQueue st @ items\<rparr>"

section \<open>The dedup predicates\<close>

text \<open>
  \<^verbatim>\<open>xs.some(area => area.p === v)\<close>: left to right, true at the first match, and a
  TypeError if an element before any match is \<^verbatim>\<open>undefined\<close> or \<^verbatim>\<open>null\<close>.
\<close>

fun some_prop :: "string \<Rightarrow> jsval list \<Rightarrow> jsval \<Rightarrow> exn + bool" where
  "some_prop p [] v = Inr False"
| "some_prop p (area # rest) v =
     (case get_prop area p of
        Inl e \<Rightarrow> Inl e
      | Inr w \<Rightarrow> if strict_eq w v then Inr True else some_prop p rest v)"

definition isInDownloadQueue :: "state \<Rightarrow> jsval \<Rightarrow> exn + bool" where
  "isInDownloadQueue st areaId = some_prop ''areaId'' (downloadQueue st) areaId"

definition isInFailedAreas :: "state \<Rightarrow> jsval \<Rightarrow> exn + bool" where
  "isInFailedAreas st areaName = some_prop ''areaName'' (failedAreas st) areaName"

section \<open>processQueueStep\<close>

text \<open>How a call of the async function ends: its promise is fulfilled or rejected.\<close>

datatype completion = Returned | Raised exn

text \<open>
  The arguments of the \<^verbatim>\<open>archiveArea\<close> call, read from the entry that was shifted off
  the queue; the first read throws if the entry is \<^verbatim>\<open>undefined\<close> or \<^verbatim>\<open>null\<close>.
\<close>

definition archiveArgs :: "jsval \<Rightarrow> exn + (jsval \<times> jsval \<times> jsval \<times> jsval)" where
  "archiveArgs areaData =
     (case get_prop areaData ''name'' of
        Inl e \<Rightarrow> Inl e
      | Inr name \<Rightarrow>
          Inr (name, prop_of areaData ''id'', prop_of areaData ''key'', prop_of areaData ''areaData''))"

text \<open>
  The \<^verbatim>\<open>catch (e)\<close> block of processQueueStep. Its first statement evaluates the template
  literal \<^verbatim>\<open>`Failure logged for ${areaName}`\<close>. No binding of \<^verbatim>\<open>areaName\<close> is in
  scope there: the function has no parameter or local of that name, \<^verbatim>\<open>areaData\<close> and
  \<^verbatim>\<open>status\<close> are local to the try block, and the module declares and imports only
  request, isAreaArchived, createArchiveLog, logFailedArchive, rotateFailedDownloadsLog,
  rotateRunOutputLog, addArchiveLog, headers, archiveArea, getAreaIdentifiers, getSubAreas,
  downloadQueue, failedAreas, downloadTimer, downloadDelay and its own six functions.
  The read throws a ReferenceError before \<^verbatim>\<open>failedAreas.push\<close> and
  \<^verbatim>\<open>logFailedArchive\<close> are reached: the handler leaves the state as it found it and
  the promise of the function is rejected.
\<close>

definition processQueueStep_catch :: "state \<Rightarrow> exn \<Rightarrow> state \<times> completion" where
  "processQueueStep_catch st e = (st, Raised ReferenceError)"

text \<open>
  What follows \<^verbatim>\<open>await archiveArea(...)\<close>: the outcome of the call is either an
  exception, which enters the catch block, or a status. \<^verbatim>\<open>status.success\<close> throws if
  the status is \<^verbatim>\<open>undefined\<close> or \<^verbatim>\<open>null\<close>.
\<close>

definition recordOutcome ::
  "state \<Rightarrow> jsval \<Rightarrow> jsval \<times> jsval \<times> jsval \<times> jsval \<Rightarrow> exn + jsval \<Rightarrow> state \<times> completion" where
  "recordOutcome st areaData args outcome =
     (case args of (name, ident, key, payload) \<Rightarrow>
        (case outcome of
           Inl e \<Rightarrow> processQueueStep_catch st e
         | Inr status \<Rightarrow>
             (case get_prop status ''success'' of
                Inl e \<Rightarrow> processQueueStep_catch st e
              | Inr success \<Rightarrow>
                  if truthy success
                  then (st\<lparr>archiveLog := archiveLog st
                            @ [(name, ident, key, prop_of areaData ''subArea'', prop_of areaData ''parentId'')]\<rparr>,
                        Returned)
                  else (st\<lparr>failedAreas := failedAreas st @ [name],
                           failedLog := failedLog st
                             @ [(name, ident, key, Message (prop_of status ''msg''))]\<rparr>,
                        Returned))))"

text \<open>The body of the try block once \<^verbatim>\<open>downloadQueue.shift()\<close> has returned the entry.\<close>

definition processEntry :: "env \<Rightarrow> state \<Rightarrow> jsval \<Rightarrow> state \<times> completion" where
  "processEntry env st areaData =
     (case archiveArgs areaData of
        Inl e \<Rightarrow> processQueueStep_catch st e
      | Inr (name, ident, key, payload) \<Rightarrow>
          recordOutcome st areaData (name, ident, key, payload)
            (archiveArea env name ident key payload))"

definition processQueueStep :: "env \<Rightarrow> state \<Rightarrow> state \<times> completion" where
  "processQueueStep env st =
     (case downloadQueue st of
        [] \<Rightarrow> (st, Returned)
      | areaData # rest \<Rightarrow> processEntry env (st\<lparr>downloadQueue := rest\<rparr>) areaData)"

section \<open>queueSearch\<close>

text \<open>
  The promise that queueSearch returns. \<^verbatim>\<open>resolve\<close> and \<^verbatim>\<open>reject\<close> settle a
  pending promise and do nothing to a settled one; neither ends the callback that calls
  it, so the statements after a \<^verbatim>\<open>reject(...)\<close> still run.
\<close>

datatype promise = Pending | Resolved | Rejected exn

definition reject :: "exn \<Rightarrow> promise \<Rightarrow> promise" where
  "reject e p = (if p = Pending then Rejected e else p)"

definition resolve :: "promise \<Rightarrow> promise" where
  "resolve p = (if p = Pending then Resolved else p)"

text \<open>
  What the callback of \<^verbatim>\<open>request\<close> is handed, by what the callback can tell apart.
  \<^verbatim>\<open>results.areas\<close> is missing (\<open>AreasUndefined\<close>), is \<^verbatim>\<open>null\<close>, is a value with
  no \<^verbatim>\<open>length\<close> (\<open>AreasNoLength\<close>), or has a length, and then \<open>AreasList\<close> holds
  the values \<^verbatim>\<open>results.areas[i]\<close> for the indices below it. The response is missing
  (\<open>NoResponse\<close>), has no body (\<open>NoBody\<close>), has a body that \<^verbatim>\<open>JSON.parse\<close> refuses
  (\<open>BadBody\<close>), one that parses to \<^verbatim>\<open>null\<close> (\<open>BodyNull\<close>), or one that parses to
  a value with the given \<^verbatim>\<open>error\<close> and \<^verbatim>\<open>areas\<close> properties.
\<close>

datatype areas_field = AreasUndefined | AreasNull | AreasNoLength | AreasList "jsval list"

datatype response = NoResponse | NoBody | BadBody | BodyNull | Body jsval areas_field

text \<open>The entry that queueSearch builds for a discovered area.\<close>

definition rootEntry :: "jsval \<Rightarrow> jsval \<Rightarrow> jsval" where
  "rootEntry name identifiers =
     JObj [(''name'', name),
           (''id'', prop_of identifiers ''id''),
           (''key'', prop_of identifiers ''key''),
           (''subArea'', JBool False),
           (''parentId'', JNull),
           (''areaData'', prop_of identifiers ''areaData'')]"

text \<open>
  The inner try block for one area of the result list: the local \<^verbatim>\<open>queueAreas\<close> as the
  block leaves it, and the exception if it threw. The three dedup checks are evaluated in
  the order of the \<^verbatim>\<open>||\<close> chain. \<^verbatim>\<open>identifiers.id\<close> throws if the resolver
  returned \<^verbatim>\<open>undefined\<close> or \<^verbatim>\<open>null\<close>. The root entry is pushed before
  \<^verbatim>\<open>getSubAreas\<close> is called, so it stays in \<^verbatim>\<open>queueAreas\<close> if that call throws.
\<close>

definition queueArea_try :: "env \<Rightarrow> state \<Rightarrow> jsval list \<Rightarrow> jsval \<Rightarrow> jsval list \<times> exn option" where
  "queueArea_try env st queueAreas area =
     (if isAreaArchived env (prop_of area ''name'') (prop_of area ''id'') then (queueAreas, None)
      else case isInDownloadQueue st (prop_of area ''id'') of
        Inl e \<Rightarrow> (queueAreas, Some e)
      | Inr True \<Rightarrow> (queueAreas, None)
      | Inr False \<Rightarrow>
         (case isInFailedAreas st (prop_of area ''name'') of
            Inl e \<Rightarrow> (queueAreas, Some e)
          | Inr True \<Rightarrow> (queueAreas, None)
          | Inr False \<Rightarrow>
             (case getAreaIdentifiers env (prop_of area ''id'') of
                Inl e \<Rightarrow> (queueAreas, Some e)
              | Inr identifiers \<Rightarrow>
                 (case get_prop identifiers ''id'' of
                    Inl e \<Rightarrow> (queueAreas, Some e)
                  | Inr ident \<Rightarrow>
                     (case getSubAreas env ident of
                        Inl e \<Rightarrow>
                          (queueAreas @ [rootEntry (prop_of area ''name'') identifiers], Some e)
                      | Inr subAreas \<Rightarrow>
                          (if subAreas \<noteq> []
                           then (queueAreas @ [rootEntry (prop_of area ''name'') identifiers])
                                  @ subAreas
                           else queueAreas @ [rootEntry (prop_of area ''name'') identifiers],
                           None))))))"

text \<open>One iteration of the loop body after \<^verbatim>\<open>lastAreaId\<close> was set: the try and its catch.\<close>

definition queueArea :: "env \<Rightarrow> jsval \<Rightarrow> jsval list \<times> state \<Rightarrow> jsval list \<times> state" where
  "queueArea env area qs =
     (case qs of (queueAreas, st) \<Rightarrow>
        (case queueArea_try env st queueAreas area of
           (queueAreas', None) \<Rightarrow> (queueAreas', st)
         | (queueAreas', Some e) \<Rightarrow>
             (queueAreas',
              st\<lparr>failedAreas := failedAreas st @ [prop_of area ''name''],
                 failedLog := failedLog st
                   @ [(prop_of area ''name'', prop_of area ''areaId'', prop_of area ''areaKey'',
                       Caught e)]\<rparr>)))"

text \<open>
  The \<^verbatim>\<open>for\<close> loop over the result list. \<^verbatim>\<open>lastAreaId = results.areas[i].id\<close> stands
  outside the inner try: on an element that is \<^verbatim>\<open>undefined\<close> or \<^verbatim>\<open>null\<close> it throws
  to the outer catch, and the local \<^verbatim>\<open>queueAreas\<close> is lost while the module state keeps
  what the earlier iterations did to it.
\<close>

fun queueLoop :: "env \<Rightarrow> jsval list \<Rightarrow> jsval list \<times> state \<Rightarrow> (exn + jsval list) \<times> state" where
  "queueLoop env [] qs = (Inr (fst qs), snd qs)"
| "queueLoop env (area # rest) qs =
     (case get_prop area ''id'' of
        Inl e \<Rightarrow> (Inl e, snd qs)
      | Inr lastAreaId \<Rightarrow> queueLoop env rest (queueArea env area qs))"

text \<open>
  The callback of \<^verbatim>\<open>request\<close>, from the error and the response it is handed to the
  module state and the promise as it leaves them. The search term only goes into the
  request. \<^verbatim>\<open>downloadQueue\<close> is assigned once, after the loop, so the dedup checks
  of a pass read the queue as the pass found it. The two awaits in the loop body let
  ticks and other passes run in between; this function is one pass with none of them
  in between.
\<close>

definition queueSearch :: "env \<Rightarrow> jsval \<Rightarrow> response \<Rightarrow> state \<Rightarrow> state \<times> promise" where
  "queueSearch env error response st =
     (let p1 = (if truthy error then reject (Value error) Pending else Pending);
          p2 = (if response = NoResponse \<or> response = NoBody
                then reject (Value (JStr ''Missing body'')) p1 else p1)
      in case response of
           NoResponse \<Rightarrow> (st, reject TypeError p2)
         | NoBody \<Rightarrow> (st, reject SyntaxError p2)
         | BadBody \<Rightarrow> (st, reject SyntaxError p2)
         | BodyNull \<Rightarrow> (st, reject TypeError p2)
         | Body results_error results_areas \<Rightarrow>
            (let p3 = (if truthy results_error
                       then reject (Value (JStr ''Missing body'')) p2 else p2)
             in case results_areas of
                  AreasUndefined \<Rightarrow>
                    (st, reject TypeError
                           (reject (Value (JStr ''No areas found in response'')) p3))
                | AreasNull \<Rightarrow> (st, reject TypeError p3)
                | AreasNoLength \<Rightarrow>
                    (st, resolve (reject (Value (JStr ''No areas found in response'')) p3))
                | AreasList areas \<Rightarrow>
                    (case queueLoop env areas ([], st) of
                       (Inl e, st') \<Rightarrow> (st', reject e p3)
                     | (Inr queueAreas, st') \<Rightarrow>
                         (if queueAreas \<noteq> []
                          then st'\<lparr>downloadQueue := downloadQueue st' @ queueAreas\<rparr>
                          else st',
                          resolve p3))))"

section \<open>The drain loop\<close>

text \<open>
  processQueueStep is an async function: a call runs up to \<^verbatim>\<open>await archiveArea(...)\<close>
  and gives control back, and the rest runs when the promise of \<^verbatim>\<open>archiveArea\<close> has
  settled. \<open>processQueueStep_begin\<close> is the part before the await: the test of the
  queue, the shift, the reading of the arguments (which enters the catch block if the
  entry is \<^verbatim>\<open>undefined\<close> or \<^verbatim>\<open>null\<close>) and the call. It ends either with the function
  finished or with the function suspended on the call it has made. The part after the
  await is \<open>recordOutcome\<close>.
\<close>

datatype suspension =
    Finished completion
  | Awaiting jsval "jsval \<times> jsval \<times> jsval \<times> jsval"

definition processQueueStep_begin :: "state \<Rightarrow> state \<times> suspension" where
  "processQueueStep_begin st =
     (case downloadQueue st of
        [] \<Rightarrow> (st, Finished Returned)
      | areaData # rest \<Rightarrow>
          (case archiveArgs areaData of
             Inl e \<Rightarrow>
               (fst (processQueueStep_catch (st\<lparr>downloadQueue := rest\<rparr>) e),
                Finished (snd (processQueueStep_catch (st\<lparr>downloadQueue := rest\<rparr>) e)))
           | Inr args \<Rightarrow> (st\<lparr>downloadQueue := rest\<rparr>, Awaiting areaData args)))"

text \<open>
  \<^verbatim>\<open>setInterval(processQueueStep, 0 * 1)\<close> calls processQueueStep on every expiry of the
  timer and drops the promise it returns; \<^verbatim>\<open>downloadTimer\<close> is never cleared.
  \<^verbatim>\<open>archiveArea\<close> downloads the area over the network, so its promise settles in a
  later turn of the event loop than the one that made the call, and the timer can expire
  in between. What happens to the module while the loop runs is therefore a sequence of
  events: a tick of the timer, the settling of an outstanding call, a call of
  appendDownloadQueue, and a pass of queueSearch (taken whole, as \<open>queueSearch\<close> has it).
  \<open>inFlight\<close> holds the calls of \<^verbatim>\<open>archiveArea\<close> that have not settled, each with
  the entry it was made for and its arguments. Nothing in startDownloadQueue or
  processQueueStep reads whether a call is outstanding, so a tick does not depend on
  \<open>inFlight\<close>. \<open>Settle i\<close> settles the call at position \<open>i\<close>; there is no such
  event when fewer calls are outstanding, and \<open>fire\<close> leaves the loop as it is then.
\<close>

datatype event =
    Tick
  | Settle nat
  | Append "jsval list"
  | Search jsval response

record drain =
  module :: state
  inFlight :: "(jsval \<times> jsval \<times> jsval \<times> jsval \<times> jsval) list"

fun fire :: "env \<Rightarrow> event \<Rightarrow> drain \<Rightarrow> drain" where
  "fire env Tick d =
     (case processQueueStep_begin (module d) of
        (st, Finished c) \<Rightarrow> d\<lparr>module := st\<rparr>
      | (st, Awaiting areaData args) \<Rightarrow>
          \<lparr>module = st, inFlight = inFlight d @ [(areaData, args)]\<rparr>)"
| "fire env (Settle i) d =
     (if i < length (inFlight d)
      then (case inFlight d ! i of
              (areaData, name, ident, key, payload) \<Rightarrow>
                \<lparr>module = fst (recordOutcome (module d) areaData (name, ident, key, payload)
                                  (archiveArea env name ident key payload)),
                 inFlight = take i (inFlight d) @ drop (Suc i) (inFlight d)\<rparr>)
      else d)"
| "fire env (Append items) d = d\<lparr>module := appendDownloadQueue items (module d)\<rparr>"
| "fire env (Search error response) d =
     d\<lparr>module := fst (queueSearch env error response (module d))\<rparr>"

definition run :: "env \<Rightarrow> event list \<Rightarrow> drain \<Rightarrow> drain" where
  "run env events d = foldl (\<lambda>d' ev. fire env ev d') d events"

text \<open>One tick of the timer whose archive call settles before anything else happens.\<close>

definition tick :: "env \<Rightarrow> state \<Rightarrow> state" where
  "tick env st = fst (processQueueStep env st)"

section \<open>The dedup predicates as the specification words them\<close>

text \<open>
  Section 4.1 of the specification: \<^verbatim>\<open>queued(id)\<close> is true if any entry currently in
  DownloadQueue has this id, \<^verbatim>\<open>previouslyFailed(name)\<close> is true if the name is present
  in FailedSet. These two follow the specification's words, not the source; the source's
  predicates are isInDownloadQueue and isInFailedAreas above.
\<close>

definition spec_queued :: "state \<Rightarrow> jsval \<Rightarrow> bool" where
  "spec_queued st ident = list_ex (\<lambda>entry. prop_of entry ''id'' = ident) (downloadQueue st)"

definition spec_previouslyFailed :: "state \<Rightarrow> jsval \<Rightarrow> bool" where
  "spec_previouslyFailed st name = (name \<in> set (failedAreas st))"

section \<open>Shapes of the data the module is documented to hold\<close>

fun is_str :: "jsval \<Rightarrow> bool" where
  "is_str (JStr s) = True"
| "is_str v = False"

text \<open>
  An entry of the documented shape (name, id, key, subArea, parentId, areaData) has a string
  as its name and no property called areaId.
\<close>

definition shaped_entry :: "jsval \<Rightarrow> bool" where
  "shaped_entry entry =
     (case entry of
        JObj ps \<Rightarrow> map_of ps ''areaId'' = None \<and> is_str (prop_of entry ''name'')
      | _ \<Rightarrow> False)"

text \<open>A search response in which every area that is listed has a string as its name.\<close>

definition named_areas :: "response \<Rightarrow> bool" where
  "named_areas response =
     (case response of
        Body results_error (AreasList areas) \<Rightarrow>
          list_all (\<lambda>area. is_str (prop_of area ''name'')) areas
      | _ \<Rightarrow> True)"

definition shaped_state :: "state \<Rightarrow> bool" where
  "shaped_state st =
     (list_all shaped_entry (downloadQueue st) \<and> list_all is_str (failedAreas st))"

text \<open>
  The states the module reaches from its initial one through its three operations, when
  what it is handed has the documented shape: appended items and the sub-areas of
  \<^verbatim>\<open>getSubAreas\<close> are entries, and areas are named by strings.
\<close>

inductive reachable :: "state \<Rightarrow> bool" where
  start: "reachable initial"
| append:
    "reachable st \<Longrightarrow> list_all shaped_entry items \<Longrightarrow>
     reachable (appendDownloadQueue items st)"
| search:
    "reachable st \<Longrightarrow> named_areas response \<Longrightarrow>
     (\<And>ident subAreas. getSubAreas env ident = Inr subAreas \<Longrightarrow> list_all shaped_entry subAreas) \<Longrightarrow>
     reachable (fst (queueSearch env error response st))"
| step:
    "reachable st \<Longrightarrow> reachable (fst (processQueueStep env st))"

section \<open>Stubs for the worked examples\<close>

text \<open>A unit named by its identifier, as an entry of the queue and as a search result.\<close>

definition unit_entry :: "string \<Rightarrow> jsval" where
  "unit_entry n =
     JObj [(''name'', JStr n), (''id'', JStr n), (''key'', JStr []), (''subArea'', JBool False),
           (''parentId'', JNull), (''areaData'', JObj [])]"

text \<open>An entry that has an id and nothing else.\<close>

definition bare :: "string \<Rightarrow> jsval" where
  "bare i = JObj [(''id'', JStr i)]"

definition found :: "string \<Rightarrow> string \<Rightarrow> jsval" where
  "found n i = JObj [(''name'', JStr n), (''id'', JStr i)]"

definition sub_entry :: "string \<Rightarrow> string \<Rightarrow> jsval" where
  "sub_entry n parent =
     JObj [(''name'', JStr n), (''id'', JStr n), (''key'', JStr []), (''subArea'', JBool True),
           (''parentId'', JStr parent), (''areaData'', JObj [])]"

text \<open>
  Collaborators: nothing is archived yet; identifiers resolve to the raw id with an empty
  key, except that the resolver fails on the id \<open>X\<close>; the unit \<open>P\<close> has two
  sub-areas and no other unit has any; the archive operation succeeds on \<open>A\<close>, reports a
  timeout on \<open>B\<close> and throws on anything else.
\<close>

definition stub :: env where
  "stub =
     \<lparr>isAreaArchived = (\<lambda>name ident. False),
      getAreaIdentifiers = (\<lambda>ident.
        if ident = JStr ''X'' then Inl (Value (JStr ''unresolved''))
        else Inr (JObj [(''id'', ident), (''key'', JStr []), (''areaData'', JObj [])])),
      getSubAreas = (\<lambda>ident.
        if ident = JStr ''P'' then Inr [sub_entry ''P1'' ''P'', sub_entry ''P2'' ''P'']
        else Inr []),
      archiveArea = (\<lambda>name ident key payload.
        if ident = JStr ''A'' then Inr (JObj [(''success'', JBool True), (''msg'', JStr ''done'')])
        else if ident = JStr ''B''
        then Inr (JObj [(''success'', JBool False), (''msg'', JStr ''timeout'')])
        else Inl (Value (JStr ''connection reset'')))\<rparr>"

text \<open>The entry that the stubbed resolver makes queueSearch build for a found unit.\<close>

definition root_of :: "string \<Rightarrow> string \<Rightarrow> jsval" where
  "root_of n i =
     JObj [(''name'', JStr n), (''id'', JStr i), (''key'', JStr []), (''subArea'', JBool False),
           (''parentId'', JNull), (''areaData'', JObj [])]"

text \<open>
  The module after \<open>B\<close> and \<open>A\<close> were appended and one tick has failed to archive
  \<open>B\<close>: \<open>A\<close> is queued and \<open>B\<close> is in failedAreas.
\<close>

definition after_failed_B :: state where
  "after_failed_B = tick stub (appendDownloadQueue [unit_entry ''B'', unit_entry ''A''] initial)"

text \<open>
  The same module after a search has found the unit \<open>P\<close>, which has two sub-areas.
\<close>

definition after_search :: state where
  "after_search =
     fst (queueSearch stub JUndefined (Body JUndefined (AreasList [found ''park'' ''P'']))
            after_failed_B)"


text \<open>
  A drain loop that starts with \<open>A\<close> and \<open>B\<close> queued and no call outstanding, and the
  arguments of the archive call for a unit named by its identifier.
\<close>

definition two_queued :: drain where
  "two_queued =
     \<lparr>module = initial\<lparr>downloadQueue := [unit_entry ''A'', unit_entry ''B'']\<rparr>, inFlight = []\<rparr>"

definition call_for :: "string \<Rightarrow> jsval \<times> jsval \<times> jsval \<times> jsval \<times> jsval" where
  "call_for n = (unit_entry n, JStr n, JStr n, JStr [], JObj [])"

section \<open>Basic facts\<close>

lemma get_prop_total: "\<not> nullish a \<Longrightarrow> get_prop a k = Inr (prop_of a k)"
  by (cases a) (simp_all add: prop_of_def split: option.splits)

lemma strict_eq_undefined: "strict_eq JUndefined v = (v = JUndefined)"
  by (cases v) auto

lemma shaped_entry_areaId: "shaped_entry a \<Longrightarrow> get_prop a ''areaId'' = Inr JUndefined"
  by (cases a) (simp_all add: shaped_entry_def)

lemma is_str_areaName: "is_str a \<Longrightarrow> get_prop a ''areaName'' = Inr JUndefined"
  by (cases a) simp_all

lemma some_prop_areaId:
  "list_all shaped_entry q \<Longrightarrow> some_prop ''areaId'' q v = Inr (v = JUndefined \<and> q \<noteq> [])"
  by (induction q) (auto simp: shaped_entry_areaId strict_eq_undefined)

lemma some_prop_areaName:
  "list_all is_str f \<Longrightarrow> some_prop ''areaName'' f v = Inr (v = JUndefined \<and> f \<noteq> [])"
  by (induction f) (auto simp: is_str_areaName strict_eq_undefined)

lemma shaped_rootEntry: "is_str name \<Longrightarrow> shaped_entry (rootEntry name identifiers)"
  by (simp add: shaped_entry_def rootEntry_def prop_of_def)

lemma queueArea_grows:
  "\<exists>more fa fl. queueArea env a (qa, st) =
     (qa @ more, st\<lparr>failedAreas := failedAreas st @ fa, failedLog := failedLog st @ fl\<rparr>)"
proof (cases "snd (queueArea_try env st qa a)")
  case None
  have "\<exists>more. fst (queueArea_try env st qa a) = qa @ more"
    by (simp add: queueArea_try_def split: sum.splits bool.splits)
  then obtain more where "queueArea_try env st qa a = (qa @ more, None)"
    using None by (metis prod.collapse)
  then have "queueArea env a (qa, st) =
     (qa @ more, st\<lparr>failedAreas := failedAreas st @ [], failedLog := failedLog st @ []\<rparr>)"
    by (simp add: queueArea_def)
  then show ?thesis by blast
next
  case (Some e)
  have "\<exists>more. fst (queueArea_try env st qa a) = qa @ more"
    by (simp add: queueArea_try_def split: sum.splits bool.splits)
  then obtain more where "queueArea_try env st qa a = (qa @ more, Some e)"
    using Some by (metis prod.collapse)
  then have "queueArea env a (qa, st) =
     (qa @ more, st\<lparr>failedAreas := failedAreas st @ [prop_of a ''name''],
        failedLog := failedLog st @ [(prop_of a ''name'', prop_of a ''areaId'', prop_of a ''areaKey'', Caught e)]\<rparr>)"
    by (simp add: queueArea_def)
  then show ?thesis by blast
qed

lemma queueLoop_grows:
  "list_all (\<lambda>a. \<not> nullish a) areas \<Longrightarrow>
   \<exists>more fa fl. queueLoop env areas (qa, st) =
     (Inr (qa @ more), st\<lparr>failedAreas := failedAreas st @ fa, failedLog := failedLog st @ fl\<rparr>)"
proof (induction areas arbitrary: qa st)
  case Nil
  have "queueLoop env [] (qa, st) =
     (Inr (qa @ []), st\<lparr>failedAreas := failedAreas st @ [], failedLog := failedLog st @ []\<rparr>)"
    by simp
  then show ?case by blast
next
  case (Cons a areas)
  obtain m1 fa1 fl1 where a: "queueArea env a (qa, st) =
     (qa @ m1, st\<lparr>failedAreas := failedAreas st @ fa1, failedLog := failedLog st @ fl1\<rparr>)"
    using queueArea_grows by blast
  let ?st1 = "st\<lparr>failedAreas := failedAreas st @ fa1, failedLog := failedLog st @ fl1\<rparr>"
  from Cons.prems have rest: "list_all (\<lambda>a. \<not> nullish a) areas" and na: "\<not> nullish a" by simp_all
  obtain m2 fa2 fl2 where b: "queueLoop env areas (qa @ m1, ?st1) =
     (Inr ((qa @ m1) @ m2), ?st1\<lparr>failedAreas := failedAreas ?st1 @ fa2, failedLog := failedLog ?st1 @ fl2\<rparr>)"
    using Cons.IH[OF rest] by blast
  have "queueLoop env (a # areas) (qa, st) =
     (Inr (qa @ (m1 @ m2)), st\<lparr>failedAreas := failedAreas st @ (fa1 @ fa2), failedLog := failedLog st @ (fl1 @ fl2)\<rparr>)"
    using a b na by (simp add: get_prop_total)
  then show ?case by blast
qed



subsection \<open>The documented shapes are kept by every operation\<close>

lemma queueArea_try_shaped:
  assumes "is_str (prop_of area ''name'')"
    and "\<And>ident subAreas. getSubAreas env ident = Inr subAreas \<Longrightarrow> list_all shaped_entry subAreas"
    and "list_all shaped_entry qa"
  shows "list_all shaped_entry (fst (queueArea_try env st qa area))"
  using assms by (auto simp: queueArea_try_def shaped_rootEntry split: sum.splits bool.splits)

lemma queueArea_shaped:
  assumes "is_str (prop_of area ''name'')"
    and "\<And>ident subAreas. getSubAreas env ident = Inr subAreas \<Longrightarrow> list_all shaped_entry subAreas"
    and "list_all shaped_entry qa" and "list_all is_str (failedAreas st)"
  shows "list_all shaped_entry (fst (queueArea env area (qa, st)))
       \<and> list_all is_str (failedAreas (snd (queueArea env area (qa, st))))
       \<and> downloadQueue (snd (queueArea env area (qa, st))) = downloadQueue st"
proof -
  have q: "list_all shaped_entry (fst (queueArea_try env st qa area))"
    using assms(1-3) by (rule queueArea_try_shaped)
  show ?thesis
  proof (cases "queueArea_try env st qa area")
    case (Pair qa' r)
    with q assms(1,4) show ?thesis
      by (cases r) (simp_all add: queueArea_def)
  qed
qed

lemma queueLoop_shaped:
  assumes "\<And>ident subAreas. getSubAreas env ident = Inr subAreas \<Longrightarrow> list_all shaped_entry subAreas"
  shows "list_all (\<lambda>area. is_str (prop_of area ''name'')) areas \<Longrightarrow>
     list_all shaped_entry (fst qs) \<Longrightarrow> list_all is_str (failedAreas (snd qs)) \<Longrightarrow>
     list_all is_str (failedAreas (snd (queueLoop env areas qs)))
     \<and> downloadQueue (snd (queueLoop env areas qs)) = downloadQueue (snd qs)
     \<and> (case fst (queueLoop env areas qs) of Inl e \<Rightarrow> True | Inr qa' \<Rightarrow> list_all shaped_entry qa')"
proof (induction areas arbitrary: qs)
  case Nil
  then show ?case by simp
next
  case (Cons area areas)
  obtain qa st where qs: "qs = (qa, st)" by (cases qs)
  from Cons.prems qs have nm: "is_str (prop_of area ''name'')"
    and rest: "list_all (\<lambda>area. is_str (prop_of area ''name'')) areas"
    and qa: "list_all shaped_entry qa" and fa: "list_all is_str (failedAreas st)"
    by simp_all
  note step = queueArea_shaped[OF nm assms qa fa]
  show ?case
  proof (cases "get_prop area ''id''")
    case (Inl e)
    then show ?thesis using fa qs by simp
  next
    case (Inr w)
    have "list_all is_str (failedAreas (snd (queueLoop env areas (queueArea env area qs))))
     \<and> downloadQueue (snd (queueLoop env areas (queueArea env area qs))) = downloadQueue (snd (queueArea env area qs))
     \<and> (case fst (queueLoop env areas (queueArea env area qs)) of Inl e \<Rightarrow> True | Inr qa' \<Rightarrow> list_all shaped_entry qa')"
      using step qs by (intro Cons.IH[OF rest]) simp_all
    then show ?thesis using Inr step qs by simp
  qed
qed

lemma queueSearch_shaped:
  assumes "\<And>ident subAreas. getSubAreas env ident = Inr subAreas \<Longrightarrow> list_all shaped_entry subAreas"
    and "named_areas response" and "shaped_state st"
  shows "shaped_state (fst (queueSearch env error response st))"
proof (cases response)
  case (Body results_error results_areas)
  show ?thesis
  proof (cases results_areas)
    case (AreasList areas)
    have nm: "list_all (\<lambda>area. is_str (prop_of area ''name'')) areas"
      using assms(2) Body AreasList by (simp add: named_areas_def)
    have "list_all is_str (failedAreas (snd (queueLoop env areas ([], st))))
     \<and> downloadQueue (snd (queueLoop env areas ([], st))) = downloadQueue (snd ([]::jsval list, st))
     \<and> (case fst (queueLoop env areas ([], st)) of Inl e \<Rightarrow> True | Inr qa' \<Rightarrow> list_all shaped_entry qa')"
      using assms(3) by (intro queueLoop_shaped[OF assms(1) nm]) (simp_all add: shaped_state_def)
    then show ?thesis using Body AreasList assms(3)
      by (cases "queueLoop env areas ([], st)")
         (auto simp: queueSearch_def Let_def shaped_state_def split: sum.splits)
  qed (use assms(3) Body in \<open>simp_all add: queueSearch_def Let_def\<close>)
qed (use assms(3) in \<open>simp_all add: queueSearch_def Let_def\<close>)

lemma shaped_entry_name: "shaped_entry a \<Longrightarrow> \<exists>n. get_prop a ''name'' = Inr (JStr n)"
proof (cases a)
  case (JObj ps)
  assume "shaped_entry a"
  with JObj have "is_str (prop_of (JObj ps) ''name'')" by (simp add: shaped_entry_def)
  then obtain n where "prop_of (JObj ps) ''name'' = JStr n" by (cases "prop_of (JObj ps) ''name''") simp_all
  then show ?thesis using JObj by (simp add: prop_of_def split: option.splits)
qed (simp_all add: shaped_entry_def)

lemma processQueueStep_shaped:
  assumes "shaped_state st" shows "shaped_state (fst (processQueueStep env st))"
proof (cases "downloadQueue st")
  case Nil
  then show ?thesis using assms by (simp add: processQueueStep_def)
next
  case (Cons a rest)
  from assms Cons have sa: "shaped_entry a" and sr: "list_all shaped_entry rest"
    and fa: "list_all is_str (failedAreas st)" by (simp_all add: shaped_state_def)
  obtain n where n: "get_prop a ''name'' = Inr (JStr n)" using shaped_entry_name[OF sa] by blast
  show ?thesis using Cons sr fa n
    by (simp add: processQueueStep_def processEntry_def archiveArgs_def recordOutcome_def
          processQueueStep_catch_def shaped_state_def split: sum.splits)
qed

lemma reachable_shaped: "reachable st \<Longrightarrow> shaped_state st"
proof (induction rule: reachable.induct)
  case start
  show ?case by (simp add: shaped_state_def initial_def)
next
  case (append st items)
  then show ?case by (simp add: shaped_state_def appendDownloadQueue_def)
next
  case (search st response env error)
  then show ?case by (intro queueSearch_shaped) 
next
  case (step st env)
  then show ?case by (intro processQueueStep_shaped)
qed

subsection \<open>The search loop\<close>

lemma queueLoop_frame:
  assumes "list_all (\<lambda>a. \<not> nullish a) areas" and "queueLoop env areas (qa, st) = (r, st')"
  shows "downloadQueue st' = downloadQueue st \<and> archiveLog st' = archiveLog st
       \<and> (\<exists>more. r = Inr (qa @ more)) \<and> (\<exists>fa. failedAreas st' = failedAreas st @ fa)
       \<and> (\<exists>fl. failedLog st' = failedLog st @ fl)"
proof -
  obtain more fa fl where "queueLoop env areas (qa, st) =
     (Inr (qa @ more), st\<lparr>failedAreas := failedAreas st @ fa, failedLog := failedLog st @ fl\<rparr>)"
    using queueLoop_grows[OF assms(1)] by blast
  with assms(2) have "r = Inr (qa @ more)"
    and "st' = st\<lparr>failedAreas := failedAreas st @ fa, failedLog := failedLog st @ fl\<rparr>"
    by simp_all
  then show ?thesis by simp
qed

lemma queueSearch_list:
  assumes "\<not> truthy error" and "\<not> truthy results_error"
    and "queueLoop env areas ([], st) = (Inr qa, st')" and "downloadQueue st' = downloadQueue st"
  shows "queueSearch env error (Body results_error (AreasList areas)) st
           = (st'\<lparr>downloadQueue := downloadQueue st @ qa\<rparr>, Resolved)"
  using assms by (cases "qa = []") (simp_all add: queueSearch_def resolve_def)


subsection \<open>Events of the drain loop\<close>

text \<open>
  The two parts of processQueueStep put together are processQueueStep: a tick whose call
  settles before the next event is one run of the function.
\<close>

lemma processQueueStep_split:
  "processQueueStep env st =
     (case processQueueStep_begin st of
        (st', Finished c) \<Rightarrow> (st', c)
      | (st', Awaiting areaData (name, ident, key, payload)) \<Rightarrow>
          recordOutcome st' areaData (name, ident, key, payload)
            (archiveArea env name ident key payload))"
  by (simp add: processQueueStep_def processQueueStep_begin_def processEntry_def
        split: list.splits sum.splits prod.splits)

lemma tick_then_settle:
  assumes "downloadQueue (module d) = areaData # rest" and "\<not> nullish areaData"
    and "inFlight d = []"
  shows "fire env (Settle 0) (fire env Tick d) = \<lparr>module = tick env (module d), inFlight = []\<rparr>"
  using assms
  by (simp add: processQueueStep_begin_def archiveArgs_def get_prop_total tick_def
        processQueueStep_def processEntry_def)

lemma fire_in_flight:
  "length (inFlight (fire env ev d)) \<le> length (inFlight d) + (if ev = Tick then 1 else 0)"
proof (cases ev)
  case Tick
  then show ?thesis
    by (simp add: processQueueStep_begin_def split: list.splits sum.splits prod.splits)
next
  case (Settle i)
  then show ?thesis by (simp split: prod.splits)
next
  case (Append items)
  then show ?thesis by simp
next
  case (Search error response)
  then show ?thesis by simp
qed

lemma run_in_flight:
  "length (inFlight (run env events d)) \<le> length (inFlight d) + count_list events Tick"
proof (induction events arbitrary: d)
  case Nil
  show ?case by (simp add: run_def)
next
  case (Cons ev events)
  have "length (inFlight (run env events (fire env ev d)))
          \<le> length (inFlight (fire env ev d)) + count_list events Tick"
    by (rule Cons.IH)
  moreover have "run env (ev # events) d = run env events (fire env ev d)"
    by (simp add: run_def)
  ultimately show ?case using fire_in_flight[of env ev d] by (cases "ev = Tick") simp_all
qed

lemma tick_starts_call:
  assumes "downloadQueue (module d) = areaData # rest" and "\<not> nullish areaData"
  shows "fire env Tick d =
     \<lparr>module = (module d)\<lparr>downloadQueue := rest\<rparr>,
      inFlight = inFlight d
        @ [(areaData, prop_of areaData ''name'', prop_of areaData ''id'',
            prop_of areaData ''key'', prop_of areaData ''areaData'')]\<rparr>"
  using assms by (simp add: processQueueStep_begin_def archiveArgs_def get_prop_total)

lemma tick_starts_none:
  assumes "downloadQueue (module d) = [] \<or> nullish (hd (downloadQueue (module d)))"
  shows "inFlight (fire env Tick d) = inFlight d
       \<and> downloadQueue (module (fire env Tick d)) = tl (downloadQueue (module d))"
proof (cases "downloadQueue (module d)")
  case Nil
  then show ?thesis by (simp add: processQueueStep_begin_def)
next
  case (Cons a rest)
  with assms have "nullish a" by simp
  then have "archiveArgs a = Inl TypeError"
    by (cases a) (simp_all add: archiveArgs_def)
  with Cons show ?thesis
    by (simp add: processQueueStep_begin_def processQueueStep_catch_def)
qed

subsection \<open>A search over units that all have a string as their name\<close>

text \<open>
  When every unit of the result list has a string as its name and is not reported as
  queued, and failedAreas holds strings only, the loop is resilient: every unit that
  is not archived and whose identifiers and sub-areas resolve is queued with its
  sub-areas, whatever happened to the units before it, and every unit whose resolution
  throws is recorded as failed.
\<close>

lemma isInFailedAreas_strings:
  "list_all is_str (failedAreas st) \<Longrightarrow> is_str name \<Longrightarrow> isInFailedAreas st name = Inr False"
  by (cases name) (simp_all add: isInFailedAreas_def some_prop_areaName)

lemma queueArea_named:
  assumes "list_all is_str (failedAreas st)" and "is_str (prop_of area ''name'')"
  shows "list_all is_str (failedAreas (snd (queueArea env area (qa, st))))
       \<and> downloadQueue (snd (queueArea env area (qa, st))) = downloadQueue st"
proof (cases "queueArea_try env st qa area")
  case (Pair qa' r)
  with assms show ?thesis by (cases r) (simp_all add: queueArea_def)
qed

lemma queueArea_resolved:
  assumes "list_all is_str (failedAreas st)" and "is_str (prop_of area ''name'')"
    and "isInDownloadQueue st (prop_of area ''id'') = Inr False"
    and "\<not> isAreaArchived env (prop_of area ''name'') (prop_of area ''id'')"
    and "getAreaIdentifiers env (prop_of area ''id'') = Inr identifiers"
    and "get_prop identifiers ''id'' = Inr ident" and "getSubAreas env ident = Inr subAreas"
  shows "queueArea env area (qa, st)
           = (qa @ rootEntry (prop_of area ''name'') identifiers # subAreas, st)"
  using assms by (simp add: queueArea_def queueArea_try_def isInFailedAreas_strings)

lemma queueArea_unresolved:
  assumes "list_all is_str (failedAreas st)" and "is_str (prop_of area ''name'')"
    and "isInDownloadQueue st (prop_of area ''id'') = Inr False"
    and "\<not> isAreaArchived env (prop_of area ''name'') (prop_of area ''id'')"
    and "getAreaIdentifiers env (prop_of area ''id'') = Inl e
         \<or> (getAreaIdentifiers env (prop_of area ''id'') = Inr identifiers
            \<and> get_prop identifiers ''id'' = Inr ident \<and> getSubAreas env ident = Inl e)"
  shows "\<exists>kept. queueArea env area (qa, st)
           = (qa @ kept,
              st\<lparr>failedAreas := failedAreas st @ [prop_of area ''name''],
                 failedLog := failedLog st
                   @ [(prop_of area ''name'', prop_of area ''areaId'', prop_of area ''areaKey'',
                       Caught e)]\<rparr>)"
  using assms by (auto simp: queueArea_def queueArea_try_def isInFailedAreas_strings)

lemma queueLoop_named_resolved:
  assumes "v \<in> set areas"
    and "\<not> isAreaArchived env (prop_of v ''name'') (prop_of v ''id'')"
    and "getAreaIdentifiers env (prop_of v ''id'') = Inr identifiers"
    and "get_prop identifiers ''id'' = Inr ident" and "getSubAreas env ident = Inr subAreas"
  shows "list_all (\<lambda>a. \<not> nullish a \<and> is_str (prop_of a ''name'')
                      \<and> some_prop ''areaId'' queue (prop_of a ''id'') = Inr False) areas \<Longrightarrow>
         list_all is_str (failedAreas st) \<Longrightarrow> downloadQueue st = queue \<Longrightarrow>
         \<exists>qa' st'. queueLoop env areas (qa, st) = (Inr qa', st')
           \<and> rootEntry (prop_of v ''name'') identifiers \<in> set qa' \<and> set subAreas \<subseteq> set qa'"
  using assms(1)
proof (induction areas arbitrary: qa st)
  case Nil
  then show ?case by simp
next
  case (Cons a areas)
  from Cons.prems have a: "\<not> nullish a" "is_str (prop_of a ''name'')"
    and aq: "isInDownloadQueue st (prop_of a ''id'') = Inr False"
    and rest: "list_all (\<lambda>a. \<not> nullish a \<and> is_str (prop_of a ''name'')
                      \<and> some_prop ''areaId'' queue (prop_of a ''id'') = Inr False) areas"
    and fa: "list_all is_str (failedAreas st)"
    by (simp_all add: isInDownloadQueue_def)
  have readable: "list_all (\<lambda>a. \<not> nullish a) areas"
    using rest by (induction areas) simp_all
  obtain qa1 st1 where step: "queueArea env a (qa, st) = (qa1, st1)"
    by (cases "queueArea env a (qa, st)")
  from queueArea_named[OF fa a(2), of env qa] step Cons.prems(3)
  have fa1: "list_all is_str (failedAreas st1)" and q1: "downloadQueue st1 = queue" by simp_all
  have unfold: "queueLoop env (a # areas) (qa, st) = queueLoop env areas (qa1, st1)"
    using a(1) step by (simp add: get_prop_total)
  show ?case
  proof (cases "v = a")
    case True
    have "queueArea env a (qa, st)
            = (qa @ rootEntry (prop_of a ''name'') identifiers # subAreas, st)"
      using queueArea_resolved[OF fa a(2) aq] assms(2-5) True by simp
    with step have qa1: "qa1 = qa @ rootEntry (prop_of a ''name'') identifiers # subAreas" by simp
    obtain more fa' fl' where "queueLoop env areas (qa1, st1) =
       (Inr (qa1 @ more), st1\<lparr>failedAreas := failedAreas st1 @ fa', failedLog := failedLog st1 @ fl'\<rparr>)"
      using queueLoop_grows[OF readable] by blast
    with unfold qa1 True show ?thesis by auto
  next
    case False
    with Cons.prems(4) have "v \<in> set areas" by simp
    from Cons.IH[OF rest fa1 q1 this, of qa1] unfold show ?thesis by simp
  qed
qed

lemma queueSearch_named_resolved:
  assumes "\<not> truthy error" and "\<not> truthy results_error"
    and "list_all (\<lambda>a. \<not> nullish a \<and> is_str (prop_of a ''name'')
                      \<and> isInDownloadQueue st (prop_of a ''id'') = Inr False) areas"
    and "list_all is_str (failedAreas st)"
    and "v \<in> set areas"
    and "\<not> isAreaArchived env (prop_of v ''name'') (prop_of v ''id'')"
    and "getAreaIdentifiers env (prop_of v ''id'') = Inr identifiers"
    and "get_prop identifiers ''id'' = Inr ident" and "getSubAreas env ident = Inr subAreas"
  shows "snd (queueSearch env error (Body results_error (AreasList areas)) st) = Resolved
       \<and> rootEntry (prop_of v ''name'') identifiers
           \<in> set (downloadQueue (fst (queueSearch env error (Body results_error (AreasList areas)) st)))
       \<and> set subAreas
           \<subseteq> set (downloadQueue (fst (queueSearch env error (Body results_error (AreasList areas)) st)))"
proof -
  have shaped: "list_all (\<lambda>a. \<not> nullish a \<and> is_str (prop_of a ''name'')
                      \<and> some_prop ''areaId'' (downloadQueue st) (prop_of a ''id'') = Inr False) areas"
    using assms(3) by (simp add: isInDownloadQueue_def)
  obtain qa' st' where loop: "queueLoop env areas ([], st) = (Inr qa', st')"
    and root: "rootEntry (prop_of v ''name'') identifiers \<in> set qa'" and subs: "set subAreas \<subseteq> set qa'"
    using queueLoop_named_resolved[OF assms(5-9) shaped assms(4) refl, of "[]"] by blast
  have readable: "list_all (\<lambda>a. \<not> nullish a) areas"
    using assms(3) by (induction areas) simp_all
  have "downloadQueue st' = downloadQueue st"
    using queueLoop_frame[OF readable loop] by simp
  from queueSearch_list[OF assms(1,2) loop this] root subs show ?thesis by auto
qed

subsection \<open>One tick, by the outcome of the archive call\<close>

lemma processQueueStep_throws:
  assumes "downloadQueue st = areaData # rest"
    and "archiveArgs areaData = Inr (name, ident, key, payload)"
    and "archiveArea env name ident key payload = Inl e"
  shows "processQueueStep env st = (st\<lparr>downloadQueue := rest\<rparr>, Raised ReferenceError)"
  using assms
  by (simp add: processQueueStep_def processEntry_def recordOutcome_def processQueueStep_catch_def)

lemma processQueueStep_success:
  assumes "downloadQueue st = areaData # rest"
    and "archiveArgs areaData = Inr (name, ident, key, payload)"
    and "archiveArea env name ident key payload = Inr status"
    and "get_prop status ''success'' = Inr success" and "truthy success"
  shows "processQueueStep env st =
     (st\<lparr>downloadQueue := rest,
         archiveLog := archiveLog st
           @ [(name, ident, key, prop_of areaData ''subArea'', prop_of areaData ''parentId'')]\<rparr>,
      Returned)"
  using assms by (simp add: processQueueStep_def processEntry_def recordOutcome_def)

lemma processQueueStep_failure:
  assumes "downloadQueue st = areaData # rest"
    and "archiveArgs areaData = Inr (name, ident, key, payload)"
    and "archiveArea env name ident key payload = Inr status"
    and "get_prop status ''success'' = Inr success" and "\<not> truthy success"
  shows "processQueueStep env st =
     (st\<lparr>downloadQueue := rest,
         failedAreas := failedAreas st @ [name],
         failedLog := failedLog st @ [(name, ident, key, Message (prop_of status ''msg''))]\<rparr>,
      Returned)"
  using assms by (simp add: processQueueStep_def processEntry_def recordOutcome_def)

subsection \<open>Responses on which queueSearch leaves the module as it was\<close>

lemma queueSearch_rejects_unchanged:
  assumes "response = NoResponse \<or> response = NoBody \<or> response = BadBody \<or> response = BodyNull
         \<or> response = Body results_error AreasUndefined \<or> response = Body results_error AreasNull
         \<or> response = Body results_error AreasNoLength"
  shows "fst (queueSearch env error response st) = st
       \<and> (\<exists>e. snd (queueSearch env error response st) = Rejected e)"
  using assms
  by (auto simp: queueSearch_def Let_def reject_def resolve_def)

section \<open>The claims\<close>

lemmas stub_eval =
  stub_def initial_def unit_entry_def sub_entry_def found_def root_of_def bare_def prop_of_def
  rootEntry_def isInDownloadQueue_def isInFailedAreas_def

text \<open>
  C1 (no duplicate enqueue). The claim: over any sequence of searches each distinct id is
  pushed onto the download queue at most once while pending, and a unit discovered twice
  in one pass is enqueued once. The code does not keep it. One search whose result lists
  the unit with id \<open>A\<close> twice, run on the empty module, leaves two entries with id
  \<open>A\<close> in the queue, and the same search run again adds two more: isInDownloadQueue
  reads \<^verbatim>\<open>areaId\<close> where the entries store \<^verbatim>\<open>id\<close>, and it reads the module's
  queue while the pass collects its entries in a local list.
\<close>

theorem duplicate_enqueue_in_one_pass:
  "queueSearch stub JUndefined
     (Body JUndefined (AreasList [found ''castle'' ''A'', found ''castle'' ''A''])) initial
     = (initial\<lparr>downloadQueue := [root_of ''castle'' ''A'', root_of ''castle'' ''A'']\<rparr>, Resolved)
   \<and> map (\<lambda>entry. prop_of entry ''id'')
        (downloadQueue (fst (queueSearch stub JUndefined
           (Body JUndefined (AreasList [found ''castle'' ''A'', found ''castle'' ''A'']))
           (initial\<lparr>downloadQueue := [root_of ''castle'' ''A'', root_of ''castle'' ''A'']\<rparr>))))
     = [JStr ''A'', JStr ''A'', JStr ''A'', JStr ''A'']"
  by (simp add: queueSearch_def queueArea_def queueArea_try_def resolve_def stub_eval)

text \<open>
  C2 (at most one archive operation in flight), as the code has it. A tick starts at most
  one archive call: on a queue whose front entry is neither \<^verbatim>\<open>undefined\<close> nor
  \<^verbatim>\<open>null\<close> it shifts that entry off the front and starts one call for it, whatever
  calls are outstanding; on an empty queue, or on a front entry that is \<^verbatim>\<open>undefined\<close>
  or \<^verbatim>\<open>null\<close>, it starts none and leaves the rest of the queue. Ticks are not held
  back while calls are outstanding, so along any run of ticks, settlements, appends and
  searches the number of calls outstanding is at most the number outstanding at the
  start plus the number of ticks.
\<close>

theorem ticks_bound_calls_in_flight:
  "length (inFlight (run env events d)) \<le> length (inFlight d) + count_list events Tick
   \<and> (downloadQueue (module d) = areaData # rest \<longrightarrow> \<not> nullish areaData \<longrightarrow>
        fire env Tick d =
          \<lparr>module = (module d)\<lparr>downloadQueue := rest\<rparr>,
           inFlight = inFlight d
             @ [(areaData, prop_of areaData ''name'', prop_of areaData ''id'',
                 prop_of areaData ''key'', prop_of areaData ''areaData'')]\<rparr>)
   \<and> (downloadQueue (module d) = [] \<or> nullish (hd (downloadQueue (module d))) \<longrightarrow>
        inFlight (fire env Tick d) = inFlight d
        \<and> downloadQueue (module (fire env Tick d)) = tl (downloadQueue (module d)))"
  using run_in_flight[of env events d] tick_starts_call[of d areaData rest env]
    tick_starts_none[of d env]
  by blast

text \<open>
  The theorem at a loop that starts with \<open>A\<close> and \<open>B\<close> queued: a tick, an append of
  \<open>C\<close> and two more ticks leave three calls outstanding, as many as there were ticks;
  the first tick starts the call for \<open>A\<close>; and a tick on the emptied queue starts none.
\<close>

theorem ticks_bound_calls_in_flight_witness:
  "inFlight (run stub [Tick, Append [unit_entry ''C''], Tick, Tick] two_queued)
     = [call_for ''A'', call_for ''B'', call_for ''C'']
   \<and> count_list [Tick, Append [unit_entry ''C''], Tick, Tick] Tick = 3
   \<and> fire stub Tick two_queued
       = \<lparr>module = initial\<lparr>downloadQueue := [unit_entry ''B'']\<rparr>, inFlight = [call_for ''A'']\<rparr>
   \<and> inFlight (fire stub Tick \<lparr>module = initial, inFlight = [call_for ''A'']\<rparr>) = [call_for ''A'']"
proof -
  let ?events = "[Tick, Append [unit_entry ''C''], Tick, Tick]"
  let ?idle = "\<lparr>module = initial, inFlight = [call_for ''A'']\<rparr>"
  have front: "downloadQueue (module two_queued) = unit_entry ''A'' # [unit_entry ''B'']"
    and entry: "\<not> nullish (unit_entry ''A'')"
    by (simp_all add: two_queued_def initial_def unit_entry_def)
  have empty: "downloadQueue (module ?idle) = [] \<or> nullish (hd (downloadQueue (module ?idle)))"
    by (simp add: initial_def)
  have three: "inFlight (run stub ?events two_queued)
                 = [call_for ''A'', call_for ''B'', call_for ''C'']"
    by (simp add: run_def two_queued_def call_for_def processQueueStep_begin_def archiveArgs_def
          appendDownloadQueue_def initial_def unit_entry_def prop_of_def)
  have bound: "length (inFlight (run stub ?events two_queued))
                 \<le> length (inFlight two_queued) + count_list ?events Tick"
    and starts: "fire stub Tick two_queued =
          \<lparr>module = (module two_queued)\<lparr>downloadQueue := [unit_entry ''B'']\<rparr>,
           inFlight = inFlight two_queued
             @ [(unit_entry ''A'', prop_of (unit_entry ''A'') ''name'',
                 prop_of (unit_entry ''A'') ''id'', prop_of (unit_entry ''A'') ''key'',
                 prop_of (unit_entry ''A'') ''areaData'')]\<rparr>"
    using ticks_bound_calls_in_flight[of stub ?events two_queued "unit_entry ''A''"
            "[unit_entry ''B'']"] front entry
    by blast+
  have none: "inFlight (fire stub Tick ?idle) = inFlight ?idle"
    using ticks_bound_calls_in_flight[of stub "[]" ?idle] empty by blast
  from three bound starts none show ?thesis
    by (simp add: two_queued_def call_for_def initial_def unit_entry_def prop_of_def)
qed

text \<open>
  C2 as the specification states it fails: with \<open>A\<close> and \<open>B\<close> queued and no call
  outstanding, two ticks of the timer leave the archive calls of both outstanding at once.
\<close>

theorem two_archive_calls_in_flight:
  "inFlight two_queued = []
   \<and> run stub [Tick, Tick] two_queued
       = \<lparr>module = initial, inFlight = [call_for ''A'', call_for ''B'']\<rparr>
   \<and> length (inFlight (run stub [Tick, Tick] two_queued)) = 2"
  by (simp add: run_def two_queued_def call_for_def processQueueStep_begin_def archiveArgs_def
        initial_def unit_entry_def prop_of_def)

text \<open>
  C3 (the tick is a failure boundary). The claim: whatever the archive call does, no error
  leaves processQueueStep. The code does not keep it. With the unit \<open>C\<close> queued, on which
  the stubbed archive operation throws, the catch block itself throws a ReferenceError
  and the promise of processQueueStep is rejected with it.
\<close>

theorem tick_raises_when_archive_throws:
  "snd (processQueueStep stub (initial\<lparr>downloadQueue := [unit_entry ''C'']\<rparr>))
     = Raised ReferenceError"
  by (simp add: processQueueStep_def processEntry_def archiveArgs_def recordOutcome_def
        processQueueStep_catch_def stub_eval)

text \<open>
  C4 (exactly one record per processed entry). The claim: after processQueueStep has run on
  an entry, one success or failure record is written, a failure putting the entry's name
  into failedAreas. The code does not keep it when the archive call throws. With the
  unit \<open>C\<close> queued the tick removes the entry and writes nothing: both logs and
  failedAreas are as empty as before.
\<close>

theorem no_record_when_archive_throws:
  "fst (processQueueStep stub (initial\<lparr>downloadQueue := [unit_entry ''C'']\<rparr>))
     = \<lparr>downloadQueue = [], failedAreas = [], archiveLog = [], failedLog = []\<rparr>"
  by (simp add: processQueueStep_def processEntry_def archiveArgs_def recordOutcome_def
        processQueueStep_catch_def stub_eval)

text \<open>
  C5 (dedup precedence). The claim: a unit that is already archived, already queued by id
  or already failed by name is never appended. The code keeps it for archived units only.
  In the module where \<open>A\<close> is queued and \<open>B\<close> has failed, a search that finds a unit
  with id \<open>A\<close> and a unit named \<open>B\<close> appends both.
\<close>

theorem queued_and_failed_units_appended:
  "spec_queued after_failed_B (JStr ''A'') \<and> spec_previouslyFailed after_failed_B (JStr ''B'')
   \<and> queueSearch stub JUndefined
        (Body JUndefined (AreasList [found ''a'' ''A'', found ''B'' ''b2''])) after_failed_B
      = (\<lparr>downloadQueue = [unit_entry ''A'', root_of ''a'' ''A'', root_of ''B'' ''b2''],
          failedAreas = [JStr ''B''],
          archiveLog = [],
          failedLog = [(JStr ''B'', JStr ''B'', JStr [], Message (JStr ''timeout''))]\<rparr>,
         Resolved)"
  by (simp add: after_failed_B_def tick_def appendDownloadQueue_def spec_queued_def
        spec_previouslyFailed_def processQueueStep_def processEntry_def archiveArgs_def
        recordOutcome_def queueSearch_def queueArea_def queueArea_try_def resolve_def stub_eval)

text \<open>
  C6 (batch resilience). The claim: when discovery fails for one unit of a search result,
  the unit is recorded as failed, the remaining units are still processed and enqueued,
  and the promise resolves. The code does not keep it when the failing unit has no name.
  Of four units the second has only the id \<open>X\<close>, on which the resolver fails:
  \<^verbatim>\<open>undefined\<close> goes into failedAreas, isInFailedAreas then throws a TypeError on
  reading \<^verbatim>\<open>areaName\<close> of it for each later unit, and the third and fourth units, which
  would resolve, are recorded as failed and not queued. The promise resolves.
\<close>

theorem unnamed_failure_fails_later_units:
  "queueSearch stub JUndefined
     (Body JUndefined
        (AreasList [found ''one'' ''1'', bare ''X'', found ''three'' ''3'', found ''four'' ''4'']))
     initial
     = (\<lparr>downloadQueue = [root_of ''one'' ''1''],
         failedAreas = [JUndefined, JStr ''three'', JStr ''four''],
         archiveLog = [],
         failedLog =
           [(JUndefined, JUndefined, JUndefined, Caught (Value (JStr ''unresolved''))),
            (JStr ''three'', JUndefined, JUndefined, Caught TypeError),
            (JStr ''four'', JUndefined, JUndefined, Caught TypeError)]\<rparr>,
        Resolved)
   \<and> getAreaIdentifiers stub (JStr ''3'')
       = Inr (JObj [(''id'', JStr ''3''), (''key'', JStr []), (''areaData'', JObj [])])
   \<and> getAreaIdentifiers stub (JStr ''4'')
       = Inr (JObj [(''id'', JStr ''4''), (''key'', JStr []), (''areaData'', JObj [])])"
  by (simp add: queueSearch_def queueArea_def queueArea_try_def resolve_def stub_eval)

text \<open>
  C7 (a failed search queues nothing). The claim: on a transport failure or a response
  with a missing body, an error field or no list of areas, queueSearch rejects and leaves
  the download queue unchanged. The code does not keep it for a response that carries an
  error field together with a list of areas: \<^verbatim>\<open>reject('Missing body')\<close> does not end
  the callback, the loop runs, and the unit is queued although the promise is rejected.
\<close>

theorem rejected_search_still_enqueues:
  "queueSearch stub JUndefined
     (Body (JStr ''rate limited'') (AreasList [found ''castle'' ''c1''])) initial
     = (initial\<lparr>downloadQueue := [root_of ''castle'' ''c1'']\<rparr>,
        Rejected (Value (JStr ''Missing body'')))"
  by (simp add: queueSearch_def queueArea_def queueArea_try_def reject_def resolve_def stub_eval)




text \<open>
  C9 (worked example), as the code has it: the queue holds two entries, the first with
  the id \<open>A\<close>, the second with the id \<open>B\<close> and the name \<open>B\<close>; the archive
  operation succeeds on \<open>A\<close> and returns \<^verbatim>\<open>{success: false, msg: "timeout"}\<close> on
  \<open>B\<close>. After two ticks the queue is empty, the recorder has one success record, for
  \<open>A\<close>, and one failure record, for \<open>B\<close> with the message \<open>timeout\<close>, and
  failedAreas holds the name of the second entry, \<open>B\<close>. Both ticks return.
\<close>

theorem worked_example_two_ticks:
  assumes "\<not> nullish a" and "prop_of a ''id'' = JStr ''A''"
    and "\<not> nullish b" and "prop_of b ''id'' = JStr ''B''" and "prop_of b ''name'' = JStr ''B''"
    and "archiveArea env (prop_of a ''name'') (JStr ''A'') (prop_of a ''key'') (prop_of a ''areaData'')
           = Inr status"
    and "get_prop status ''success'' = Inr success" and "truthy success"
    and "archiveArea env (JStr ''B'') (JStr ''B'') (prop_of b ''key'') (prop_of b ''areaData'')
           = Inr (JObj [(''success'', JBool False), (''msg'', JStr ''timeout'')])"
  shows "snd (processQueueStep env (initial\<lparr>downloadQueue := [a, b]\<rparr>)) = Returned
       \<and> snd (processQueueStep env (tick env (initial\<lparr>downloadQueue := [a, b]\<rparr>))) = Returned
       \<and> tick env (tick env (initial\<lparr>downloadQueue := [a, b]\<rparr>))
           = \<lparr>downloadQueue = [],
              failedAreas = [JStr ''B''],
              archiveLog = [(prop_of a ''name'', JStr ''A'', prop_of a ''key'',
                             prop_of a ''subArea'', prop_of a ''parentId'')],
              failedLog = [(JStr ''B'', JStr ''B'', prop_of b ''key'', Message (JStr ''timeout''))]\<rparr>"
proof -
  let ?st1 = "\<lparr>downloadQueue = [b], failedAreas = [],
               archiveLog = [(prop_of a ''name'', JStr ''A'', prop_of a ''key'',
                              prop_of a ''subArea'', prop_of a ''parentId'')],
               failedLog = []\<rparr>"
  have msg: "prop_of (JObj [(''success'', JBool False), (''msg'', JStr ''timeout'')]) ''msg''
               = JStr ''timeout''"
    by (simp add: prop_of_def)
  have 1: "processQueueStep env (initial\<lparr>downloadQueue := [a, b]\<rparr>) = (?st1, Returned)"
    using assms(1,2,6,7,8)
    by (simp add: processQueueStep_def processEntry_def archiveArgs_def recordOutcome_def
          get_prop_total initial_def)
  have 2: "processQueueStep env ?st1
     = (\<lparr>downloadQueue = [], failedAreas = [JStr ''B''],
         archiveLog = [(prop_of a ''name'', JStr ''A'', prop_of a ''key'',
                        prop_of a ''subArea'', prop_of a ''parentId'')],
         failedLog = [(JStr ''B'', JStr ''B'', prop_of b ''key'', Message (JStr ''timeout''))]\<rparr>,
        Returned)"
    using assms(3,4,5,9) msg
    by (simp add: processQueueStep_def processEntry_def archiveArgs_def recordOutcome_def
          get_prop_total)
  from 1 2 show ?thesis by (simp add: tick_def)
qed

text \<open>The worked example with the stubbed archive operation and two full entries.\<close>

theorem worked_example_witness:
  "tick stub (tick stub (initial\<lparr>downloadQueue := [unit_entry ''A'', unit_entry ''B'']\<rparr>))
     = \<lparr>downloadQueue = [], failedAreas = [JStr ''B''],
        archiveLog = [(JStr ''A'', JStr ''A'', JStr [], JBool False, JNull)],
        failedLog = [(JStr ''B'', JStr ''B'', JStr [], Message (JStr ''timeout''))]\<rparr>"
proof -
  let ?done = "JObj [(''success'', JBool True), (''msg'', JStr ''done'')]"
  have a: "\<not> nullish (unit_entry ''A'')" "prop_of (unit_entry ''A'') ''id'' = JStr ''A''"
    and b: "\<not> nullish (unit_entry ''B'')" "prop_of (unit_entry ''B'') ''id'' = JStr ''B''"
           "prop_of (unit_entry ''B'') ''name'' = JStr ''B''"
    by (simp_all add: unit_entry_def prop_of_def)
  have ok: "archiveArea stub (prop_of (unit_entry ''A'') ''name'') (JStr ''A'')
              (prop_of (unit_entry ''A'') ''key'') (prop_of (unit_entry ''A'') ''areaData'') = Inr ?done"
    and success: "get_prop ?done ''success'' = Inr (JBool True)" "truthy (JBool True)"
    and timeout: "archiveArea stub (JStr ''B'') (JStr ''B'')
              (prop_of (unit_entry ''B'') ''key'') (prop_of (unit_entry ''B'') ''areaData'')
                = Inr (JObj [(''success'', JBool False), (''msg'', JStr ''timeout'')])"
    by (simp_all add: stub_def)
  from worked_example_two_ticks[OF a b ok success timeout]
  show ?thesis by (simp add: unit_entry_def prop_of_def)
qed

text \<open>
  C9 as stated, with the queue \<^verbatim>\<open>[{id:"A"},{id:"B"}]\<close>, fails: failedAreas takes the
  name of the failed entry, not its id, and an entry that has only an id puts
  \<^verbatim>\<open>undefined\<close> there.
\<close>

theorem bare_entries_fail_undefined:
  "tick stub (tick stub (initial\<lparr>downloadQueue := [bare ''A'', bare ''B'']\<rparr>))
     = \<lparr>downloadQueue = [], failedAreas = [JUndefined],
        archiveLog = [(JUndefined, JStr ''A'', JUndefined, JUndefined, JUndefined)],
        failedLog = [(JUndefined, JStr ''B'', JUndefined, Message (JStr ''timeout''))]\<rparr>
   \<and> failedAreas (tick stub (tick stub (initial\<lparr>downloadQueue := [bare ''A'', bare ''B'']\<rparr>)))
       \<noteq> [JStr ''B'']"
  by (simp add: tick_def processQueueStep_def processEntry_def archiveArgs_def recordOutcome_def
        stub_eval)

text \<open>
  C10 (both dedup predicates are vacuous), as the code has it: in every state that the
  module's operations reach on data of the documented shape, isInDownloadQueue and
  isInFailedAreas return false for every argument other than \<^verbatim>\<open>undefined\<close>, so for
  every id and every name; for \<^verbatim>\<open>undefined\<close> each returns true exactly when its list
  is not empty, since the property it reads is missing from every element.
\<close>

theorem dedup_predicates_vacuous:
  assumes "reachable st"
  shows "isInDownloadQueue st v = Inr (v = JUndefined \<and> downloadQueue st \<noteq> [])
       \<and> isInFailedAreas st v = Inr (v = JUndefined \<and> failedAreas st \<noteq> [])"
  using reachable_shaped[OF assms]
  by (simp add: shaped_state_def isInDownloadQueue_def isInFailedAreas_def
        some_prop_areaId some_prop_areaName)

text \<open>
  The theorem in a state that all three operations have worked on: \<open>B\<close> and \<open>A\<close> were
  appended, a tick has failed to archive \<open>B\<close>, and a search has queued \<open>P\<close> with its
  two sub-areas. The id \<open>P1\<close> is queued as the specification words it and \<open>B\<close> is in
  failedAreas, and both predicates return false.
\<close>

theorem dedup_predicates_vacuous_witness:
  "reachable after_search
   \<and> spec_queued after_search (JStr ''P1'')
   \<and> isInDownloadQueue after_search (JStr ''P1'') = Inr False
   \<and> spec_previouslyFailed after_search (JStr ''B'')
   \<and> isInFailedAreas after_search (JStr ''B'') = Inr False"
proof -
  have "list_all shaped_entry [unit_entry ''B'', unit_entry ''A'']"
    by (simp add: shaped_entry_def unit_entry_def prop_of_def)
  then have "reachable after_failed_B"
    unfolding after_failed_B_def tick_def
    by (intro reachable.step reachable.append reachable.start)
  moreover have "named_areas (Body JUndefined (AreasList [found ''park'' ''P'']))"
    by (simp add: named_areas_def found_def prop_of_def)
  moreover have "list_all shaped_entry subAreas" if "getSubAreas stub ident = Inr subAreas"
    for ident subAreas
    using that by (auto simp: stub_def shaped_entry_def sub_entry_def prop_of_def split: if_splits)
  ultimately have r: "reachable after_search"
    unfolding after_search_def by (rule reachable.search)
  have q: "downloadQueue after_search
             = [unit_entry ''A'', root_of ''park'' ''P'', sub_entry ''P1'' ''P'', sub_entry ''P2'' ''P'']"
    and f: "failedAreas after_search = [JStr ''B'']"
    by (simp_all add: after_search_def after_failed_B_def tick_def appendDownloadQueue_def
          processQueueStep_def processEntry_def archiveArgs_def recordOutcome_def
          queueSearch_def queueArea_def queueArea_try_def resolve_def stub_eval)
  from dedup_predicates_vacuous[OF r, of "JStr ''P1''"]
       dedup_predicates_vacuous[OF r, of "JStr ''B''"] r q f
  show ?thesis
    by (simp add: spec_queued_def spec_previouslyFailed_def unit_entry_def root_of_def
          sub_entry_def prop_of_def)
qed

text \<open>
  C10 as stated, for every argument, fails at \<^verbatim>\<open>undefined\<close>: with one entry of the
  documented shape appended to the empty queue, isInDownloadQueue returns true for it.
\<close>

theorem in_queue_true_for_undefined:
  "reachable (appendDownloadQueue [unit_entry ''A''] initial)
   \<and> isInDownloadQueue (appendDownloadQueue [unit_entry ''A''] initial) JUndefined = Inr True"
proof -
  have "list_all shaped_entry [unit_entry ''A'']"
    by (simp add: shaped_entry_def unit_entry_def prop_of_def)
  then have "reachable (appendDownloadQueue [unit_entry ''A''] initial)"
    by (intro reachable.append reachable.start)
  then show ?thesis
    by (simp add: appendDownloadQueue_def stub_eval)
qed

end
